theory Spec2Isabelle
  imports Complex_Main
begin

section \<open>Reference model of the JSON text format\<close>

text \<open>
  \<^verbatim>\<open>JSON.parse\<close> is a builtin of the host language. The functions of the repository that
  call it take it as the parameter \<open>JSON_parse\<close>; the model below (a lexer and a stack
  machine over the tokens) is the instance used for concrete inputs. Strings are lists of
  8-bit characters; a number keeps its lexeme and a string its undecoded body, which is all
  that the structure of a parsed array depends on.
\<close>

datatype json =
    JNull
  | JBool bool
  | JNum string
  | JStr string
  | JArr "json list"
  | JObj "(string \<times> json) list"

datatype token = TLBrack | TRBrack | TLBrace | TRBrace | TComma | TColon | TLit json

definition is_json_ws :: "char \<Rightarrow> bool" where
  "is_json_ws c = (c \<in> set [CHR 0x20, CHR 0x09, CHR 0x0A, CHR 0x0D])"

definition is_digit :: "char \<Rightarrow> bool" where
  "is_digit c = (c \<in> set ''0123456789'')"

definition is_hex :: "char \<Rightarrow> bool" where
  "is_hex c = (c \<in> set ''0123456789abcdefABCDEF'')"

definition is_num_char :: "char \<Rightarrow> bool" where
  "is_num_char c = (is_digit c \<or> c \<in> set ''+-.eE'')"

definition digits1 :: "string \<Rightarrow> bool" where
  "digits1 s = (s \<noteq> [] \<and> list_all is_digit s)"

definition valid_exp :: "string \<Rightarrow> bool" where
  "valid_exp s = (case s of
       [] \<Rightarrow> True
     | e # r \<Rightarrow> (e = CHR ''e'' \<or> e = CHR ''E'') \<and>
         (case r of
            [] \<Rightarrow> False
          | sg # r' \<Rightarrow> if sg = CHR ''+'' \<or> sg = CHR ''-'' then digits1 r' else digits1 r))"

definition valid_frac_exp :: "string \<Rightarrow> bool" where
  "valid_frac_exp s = (case s of
       [] \<Rightarrow> True
     | d # r \<Rightarrow> if d = CHR ''.''
         then takeWhile is_digit r \<noteq> [] \<and> valid_exp (dropWhile is_digit r)
         else valid_exp s)"

definition valid_int_rest :: "string \<Rightarrow> bool" where
  "valid_int_rest s = (case s of
       [] \<Rightarrow> False
     | d # r \<Rightarrow> if d = CHR ''0'' then valid_frac_exp r
         else if is_digit d then valid_frac_exp (dropWhile is_digit r)
         else False)"

definition valid_number :: "string \<Rightarrow> bool" where
  "valid_number s = (case s of
       [] \<Rightarrow> False
     | c # r \<Rightarrow> if c = CHR ''-'' then valid_int_rest r else valid_int_rest s)"

definition valid_escape :: "char \<Rightarrow> string \<Rightarrow> bool" where
  "valid_escape e rest =
     (if e = CHR ''u'' then length rest \<ge> 4 \<and> list_all is_hex (take 4 rest)
      else e \<in> set [CHR 0x22, CHR 0x5C, CHR ''/'', CHR ''b'', CHR ''f'', CHR ''n'', CHR ''r'', CHR ''t''])"

text \<open>Position of the closing quote of a string body, \<open>None\<close> when the body is malformed
  or unterminated.\<close>

fun str_end :: "string \<Rightarrow> nat option" where
  "str_end [] = None"
| "str_end (c # cs) =
     (if c = CHR 0x22 then Some 0
      else if c = CHR 0x5C then
        (case cs of
           [] \<Rightarrow> None
         | e # cs' \<Rightarrow> if valid_escape e cs' then map_option (\<lambda>n. n + 2) (str_end cs') else None)
      else if (of_char c :: nat) < 0x20 then None
      else map_option Suc (str_end cs))"

function lex :: "string \<Rightarrow> token list option" where
  "lex [] = Some []"
| "lex (c # cs) =
     (if is_json_ws c then lex cs
      else if c = CHR ''['' then map_option ((#) TLBrack) (lex cs)
      else if c = CHR '']'' then map_option ((#) TRBrack) (lex cs)
      else if c = CHR ''{'' then map_option ((#) TLBrace) (lex cs)
      else if c = CHR ''}'' then map_option ((#) TRBrace) (lex cs)
      else if c = CHR '','' then map_option ((#) TComma) (lex cs)
      else if c = CHR '':'' then map_option ((#) TColon) (lex cs)
      else if c = CHR 0x22 then
        (case str_end cs of
           None \<Rightarrow> None
         | Some n \<Rightarrow> map_option ((#) (TLit (JStr (take n cs)))) (lex (drop (Suc n) cs)))
      else if c = CHR ''-'' \<or> is_digit c then
        (if valid_number (c # takeWhile is_num_char cs)
         then map_option ((#) (TLit (JNum (c # takeWhile is_num_char cs))))
                (lex (dropWhile is_num_char cs))
         else None)
      else if c # take 3 cs = ''true'' then map_option ((#) (TLit (JBool True))) (lex (drop 3 cs))
      else if c # take 4 cs = ''false'' then map_option ((#) (TLit (JBool False))) (lex (drop 4 cs))
      else if c # take 3 cs = ''null'' then map_option ((#) (TLit JNull)) (lex (drop 3 cs))
      else None)"
  by pat_completeness auto
termination
  by (relation "measure length") (auto simp: less_Suc_eq_le length_dropWhile_le)

text \<open>The parser is a stack machine: one frame for each array or object that is still
  open, and a mode that says what the grammar allows next.\<close>

datatype frame = FArr "json list" | FObj "(string \<times> json) list" "string option"

datatype mode = MValue | MValueOrClose | MKeyOrClose | MKey | MColon | MAfter | MDone json

fun push_value :: "json \<Rightarrow> frame list \<Rightarrow> (mode \<times> frame list) option" where
  "push_value v [] = Some (MDone v, [])"
| "push_value v (FArr xs # st) = Some (MAfter, FArr (xs @ [v]) # st)"
| "push_value v (FObj kvs (Some k) # st) = Some (MAfter, FObj (kvs @ [(k, v)]) None # st)"
| "push_value v (FObj kvs None # st) = None"

definition expects_value :: "mode \<Rightarrow> bool" where
  "expects_value m = (m = MValue \<or> m = MValueOrClose)"

fun parse_step :: "token \<Rightarrow> mode \<times> frame list \<Rightarrow> (mode \<times> frame list) option" where
  "parse_step (TLit v) (m, st) =
     (if expects_value m then push_value v st
      else if m = MKeyOrClose \<or> m = MKey then
        (case (v, st) of
           (JStr k, FObj kvs None # st') \<Rightarrow> Some (MColon, FObj kvs (Some k) # st')
         | _ \<Rightarrow> None)
      else None)"
| "parse_step TLBrack (m, st) =
     (if expects_value m then Some (MValueOrClose, FArr [] # st) else None)"
| "parse_step TLBrace (m, st) =
     (if expects_value m then Some (MKeyOrClose, FObj [] None # st) else None)"
| "parse_step TRBrack (m, st) =
     (if m = MValueOrClose \<or> m = MAfter then
        (case st of FArr xs # st' \<Rightarrow> push_value (JArr xs) st' | _ \<Rightarrow> None)
      else None)"
| "parse_step TRBrace (m, st) =
     (if m = MKeyOrClose \<or> m = MAfter then
        (case st of FObj kvs None # st' \<Rightarrow> push_value (JObj kvs) st' | _ \<Rightarrow> None)
      else None)"
| "parse_step TComma (m, st) =
     (if m = MAfter then
        (case st of
           FArr xs # st' \<Rightarrow> Some (MValue, st)
         | FObj kvs None # st' \<Rightarrow> Some (MKey, st)
         | _ \<Rightarrow> None)
      else None)"
| "parse_step TColon (m, st) = (if m = MColon then Some (MValue, st) else None)"

fun parse_tokens :: "token list \<Rightarrow> mode \<times> frame list \<Rightarrow> json option" where
  "parse_tokens [] (m, st) = (case m of MDone v \<Rightarrow> Some v | _ \<Rightarrow> None)"
| "parse_tokens (t # ts) s =
     (case parse_step t s of None \<Rightarrow> None | Some s' \<Rightarrow> parse_tokens ts s')"

definition JSON_parse_value :: "string \<Rightarrow> json option" where
  "JSON_parse_value s =
     (case lex s of None \<Rightarrow> None | Some ts \<Rightarrow> parse_tokens ts (MValue, []))"

text \<open>The element-array view of \<^verbatim>\<open>JSON.parse\<close>, as the callers type its result
  (\<^verbatim>\<open>any[]\<close>).\<close>

definition JSON_parse_array :: "string \<Rightarrow> json list option" where
  "JSON_parse_array s = (case JSON_parse_value s of Some (JArr xs) \<Rightarrow> Some xs | _ \<Rightarrow> None)"

section \<open>Partial-JSON recovery\<close>

definition is_js_ws :: "char \<Rightarrow> bool" where
  "is_js_ws c = (c \<in> set [CHR 0x09, CHR 0x0A, CHR 0x0B, CHR 0x0C, CHR 0x0D, CHR 0x20, CHR 0xA0])"

definition trim :: "string \<Rightarrow> string" where
  "trim s = rev (dropWhile is_js_ws (rev (dropWhile is_js_ws s)))"

definition startsWith :: "string \<Rightarrow> string \<Rightarrow> bool" where
  "startsWith s p = (take (length p) s = p)"

definition lastIndexOf :: "string \<Rightarrow> char \<Rightarrow> int" where
  "lastIndexOf s c =
     (if c \<in> set s then int (length s) - 1 - int (length (takeWhile (\<lambda>x. x \<noteq> c) (rev s)))
      else - 1)"

definition substring :: "string \<Rightarrow> int \<Rightarrow> int \<Rightarrow> string" where
  "substring s a b = take (nat b - nat a) (drop (nat a) s)"

text \<open>
  \<^verbatim>\<open>
  function parsePartialElements(str: string | undefined): any[] {
    if (!str?.trim().startsWith("[")) return [];
    try { return JSON.parse(str); } catch { /* partial */ }
    const last = str.lastIndexOf("}");
    if (last < 0) return [];
    try { return JSON.parse(str.substring(0, last + 1) + "]"); } catch { /* incomplete */ }
    return [];
  }
  \<close>
\<close>

definition parsePartialElements :: "(string \<Rightarrow> 'a list option) \<Rightarrow> string option \<Rightarrow> 'a list" where
  "parsePartialElements JSON_parse str =
     (case str of
        None \<Rightarrow> []
      | Some s \<Rightarrow>
          if \<not> startsWith (trim s) ''['' then []
          else (case JSON_parse s of
                  Some parsed \<Rightarrow> parsed
                | None \<Rightarrow>
                    let last = lastIndexOf s (CHR ''}'') in
                    if last < 0 then []
                    else (case JSON_parse (substring s 0 (last + 1) @ '']'') of
                            Some parsed \<Rightarrow> parsed
                          | None \<Rightarrow> [])))"

text \<open>
  \<^verbatim>\<open>
  function excludeIncompleteLastItem<T>(arr: T[]): T[] {
    if (!arr || arr.length === 0) return [];
    if (arr.length <= 1) return [];
    return arr.slice(0, -1);
  }
  \<close>
\<close>

definition excludeIncompleteLastItem :: "'a list \<Rightarrow> 'a list" where
  "excludeIncompleteLastItem arr =
     (if length arr = 0 then []
      else if length arr \<le> 1 then []
      else take (length arr - 1) arr)"

text \<open>The array that \<^verbatim>\<open>DiagramView\<close> hands to the pseudo-element extractor: the final
  payload goes through the recoverer alone, a streaming frame loses its last item too.\<close>

definition frameElements :: "(string \<Rightarrow> 'a list option) \<Rightarrow> bool \<Rightarrow> string \<Rightarrow> 'a list" where
  "frameElements JSON_parse isFinal str =
     (if isFinal then parsePartialElements JSON_parse (Some str)
      else excludeIncompleteLastItem (parsePartialElements JSON_parse (Some str)))"

section \<open>Diagram elements\<close>

text \<open>
  The source handles elements as untyped objects decoded from JSON. The record lists the
  fields that the modelled functions read or write; an absent field is \<open>None\<close>. Numbers
  are real numbers. Sets of ids hold optional strings, since the source also stores and
  looks up the id of an element that has none.
\<close>

record ViewportRect =
  vp_x :: real
  vp_y :: real
  vp_width :: real
  vp_height :: real

record binding =
  elementId :: "string option"
  fixedPoint :: "real \<times> real"

record bound_ref =
  ref_type :: string
  ref_id :: "string option"

record element =
  el_type :: string
  el_id :: "string option"
  el_ids :: "string option"
  el_containerId :: "string option"
  el_x :: real
  el_y :: real
  el_width :: "real option"
  el_height :: "real option"
  el_points :: "(real \<times> real) list option"
  el_startBinding :: "binding option"
  el_endBinding :: "binding option"
  el_boundElements :: "bound_ref list option"
  el_startArrowhead :: "string option"
  el_endArrowhead :: "string option"
  el_groupIds :: "string list option"
  el_roughness :: "real option"
  el_opacity :: "real option"

definition PSEUDO_TYPES :: "string set" where
  "PSEUDO_TYPES = {''cameraUpdate'', ''delete'', ''restoreCheckpoint''}"



definition BINDABLE_SHAPES :: "string set" where
  "BINDABLE_SHAPES = {''rectangle'', ''diamond'', ''ellipse''}"


text \<open>\<^verbatim>\<open>v ?? d\<close> on an optional number.\<close>

definition orElse :: "'a option \<Rightarrow> 'a \<Rightarrow> 'a" where
  "orElse v d = (case v of None \<Rightarrow> d | Some a \<Rightarrow> a)"

section \<open>Pseudo-element extraction\<close>

text \<open>\<^verbatim>\<open>str.split(",")\<close>: the pieces between the separators, one piece for the empty
  string.\<close>

fun split :: "char \<Rightarrow> string \<Rightarrow> string list" where
  "split c [] = [[]]"
| "split c (a # as) =
     (if a = c then [] # split c as
      else (case split c as of [] \<Rightarrow> [[a]] | w # ws \<Rightarrow> (a # w) # ws))"

text \<open>\<^verbatim>\<open>String(el.ids ?? el.id).split(",")\<close>, each piece trimmed: the ids one
  \<^verbatim>\<open>delete\<close> entry names.\<close>

definition deleteTargets :: "element \<Rightarrow> string option set" where
  "deleteTargets el =
     set (map (\<lambda>i. Some (trim i))
       (split (CHR '','')
         (case (case el_ids el of Some s \<Rightarrow> Some s | None \<Rightarrow> el_id el) of
            None \<Rightarrow> ''undefined''
          | Some s \<Rightarrow> s)))"

record extraction =
  viewport :: "ViewportRect option"
  drawElements :: "element list"
  restoreId :: "string option"
  deleteIds :: "string option set"

text \<open>One turn of the loop of \<^verbatim>\<open>extractViewportAndElements\<close>. A camera without width or
  height stores \<^verbatim>\<open>undefined\<close> in the source's viewport; it reads as 0 here.\<close>

definition extractStep :: "extraction \<Rightarrow> element \<Rightarrow> extraction" where
  "extractStep acc el =
     (if el_type el = ''cameraUpdate'' then
        acc\<lparr>viewport := Some \<lparr>vp_x = el_x el, vp_y = el_y el,
                               vp_width = orElse (el_width el) 0,
                               vp_height = orElse (el_height el) 0\<rparr>\<rparr>
      else if el_type el = ''restoreCheckpoint'' then acc\<lparr>restoreId := el_id el\<rparr>
      else if el_type el = ''delete'' then acc\<lparr>deleteIds := deleteIds acc \<union> deleteTargets el\<rparr>
      else acc\<lparr>drawElements := drawElements acc @ [el]\<rparr>)"

definition extractViewportAndElements :: "element list \<Rightarrow> extraction" where
  "extractViewportAndElements elements =
     (let acc = foldl extractStep
                  \<lparr>viewport = None, drawElements = [], restoreId = None, deleteIds = {}\<rparr> elements;
          processedDraw =
            (if deleteIds acc \<noteq> {}
             then map (\<lambda>el. if el_id el \<in> deleteIds acc \<or> el_containerId el \<in> deleteIds acc
                             then el\<lparr>el_opacity := Some 1\<rparr> else el) (drawElements acc)
             else drawElements acc)
      in acc\<lparr>drawElements := processedDraw\<rparr>)"

section \<open>The create\_view tool: scene resolution and checkpoints\<close>

record checkpoint =
  cp_elements :: "element list"
  cp_plan :: "string option"

text \<open>Modelled from the spec: the Checkpoint Store, whose implementation
  (\<^verbatim>\<open>checkpoint-store\<close>) is not part of the sources at hand. The spec gives
  \<^verbatim>\<open>save(id, {elements, plan})\<close> with overwrite semantics and \<^verbatim>\<open>load(id)\<close> returning the
  checkpoint or nothing.\<close>

type_synonym store = "string \<rightharpoonup> checkpoint"

definition store_load :: "store \<Rightarrow> string \<Rightarrow> checkpoint option" where
  "store_load st i = st i"

definition store_save :: "store \<Rightarrow> string \<Rightarrow> checkpoint \<Rightarrow> store" where
  "store_save st i cp = st(i \<mapsto> cp)"

definition MAX_INPUT_BYTES :: nat where
  "MAX_INPUT_BYTES = 5 * 1024 * 1024"

datatype tool_error =
    InputTooLarge nat
  | InvalidJson
  | CheckpointNotFound string

text \<open>The result of the tool: an error result, or the success message, which carries the
  new checkpoint id and, when a camera is far from 4:3, the size of the first such camera.\<close>

datatype tool_result =
    ToolError tool_error
  | Displayed string "(real \<times> real) option"

definition badRatio :: "element \<Rightarrow> bool" where
  "badRatio c =
     (case (el_width c, el_height c) of
        (Some w, Some h) \<Rightarrow> if w = 0 \<or> h = 0 then False else \<bar>w / h - 4 / 3\<bar> > 0.15
      | _ \<Rightarrow> False)"

definition serverDeleteIds :: "element list \<Rightarrow> string option set" where
  "serverDeleteIds parsed =
     foldl (\<lambda>acc el. if el_type el = ''delete'' then acc \<union> deleteTargets el else acc) {} parsed"

text \<open>The handler of \<^verbatim>\<open>create_view\<close>. \<open>checkpointId\<close> is the id drawn from
  \<^verbatim>\<open>crypto.randomUUID()\<close> for this call. The handler returns its result and the store
  after the call.\<close>

definition create_view ::
  "(string \<Rightarrow> element list option) \<Rightarrow> string \<Rightarrow> store \<Rightarrow> string \<Rightarrow> string option
     \<Rightarrow> tool_result \<times> store" where
  "create_view JSON_parse checkpointId st elements plan =
     (if length elements > MAX_INPUT_BYTES then (ToolError (InputTooLarge MAX_INPUT_BYTES), st)
      else (case JSON_parse elements of
        None \<Rightarrow> (ToolError InvalidJson, st)
      | Some parsed \<Rightarrow>
          let restoreEl = find (\<lambda>el. el_type el = ''restoreCheckpoint'') parsed;
              restoreKey = (case restoreEl of None \<Rightarrow> None | Some r \<Rightarrow>
                              (case el_id r of None \<Rightarrow> None
                               | Some i \<Rightarrow> if i = [] then None else Some i));
              cameras = filter (\<lambda>el. el_type el = ''cameraUpdate'') parsed;
              ratioHint = map_option (\<lambda>c. (orElse (el_width c) 0, orElse (el_height c) 0))
                            (find badRatio cameras)
          in (case restoreKey of
                Some rid \<Rightarrow>
                  (case store_load st rid of
                     None \<Rightarrow> (ToolError (CheckpointNotFound rid), st)
                   | Some base \<Rightarrow>
                       let planToSave = (case plan of Some p \<Rightarrow> Some p | None \<Rightarrow>
                                           (case cp_plan base of Some p \<Rightarrow> Some p | None \<Rightarrow> Some []));
                           deleteIds = serverDeleteIds parsed;
                           baseFiltered = filter (\<lambda>el. \<not> el_id el \<in> deleteIds
                                                      \<and> \<not> el_containerId el \<in> deleteIds)
                                            (cp_elements base);
                           newEls = filter (\<lambda>el. el_type el \<noteq> ''restoreCheckpoint''
                                                \<and> el_type el \<noteq> ''delete'') parsed;
                           resolvedElements = baseFiltered @ newEls
                       in (Displayed checkpointId ratioHint,
                           store_save st checkpointId
                             \<lparr>cp_elements = resolvedElements, cp_plan = planToSave\<rparr>))
              | None \<Rightarrow>
                  let resolvedElements = filter (\<lambda>el. el_type el \<noteq> ''delete'') parsed
                  in (Displayed checkpointId ratioHint,
                      store_save st checkpointId
                        \<lparr>cp_elements = resolvedElements, cp_plan = plan\<rparr>))))"

section \<open>Geometry normalization\<close>






subsection \<open>Arrow binding\<close>















type_synonym bound_updates = "string option \<rightharpoonup> bound_ref list"




definition mergeBound :: "bound_updates \<Rightarrow> element \<Rightarrow> element" where
  "mergeBound m el =
     (case m (el_id el) of
        None \<Rightarrow> el
      | Some add \<Rightarrow>
          el\<lparr>el_boundElements :=
               Some (foldl (\<lambda>merged r. if list_ex (\<lambda>b. ref_id b = ref_id r) merged then merged
                                         else merged @ [r])
                      (orElse (el_boundElements el) []) add)\<rparr>)"


subsection \<open>Style\<close>




subsection \<open>Draw order\<close>










subsection \<open>Grouping of nested shapes\<close>





subsection \<open>The pipeline\<close>


subsection \<open>Scenes that are already normalized\<close>






section \<open>Camera animation\<close>

definition LERP_SPEED :: real where
  "LERP_SPEED = 0.03"

record camera =
  animatedVP :: "ViewportRect option"
  targetVP :: "ViewportRect option"

text \<open>One call of \<^verbatim>\<open>animateViewBox\<close>: the camera after the tick, and whether the tick asked
  for another animation frame. Writing the view box into the rendered image is an effect
  outside the model.\<close>

definition animateViewBox :: "camera \<Rightarrow> camera \<times> bool" where
  "animateViewBox cam =
     (case (animatedVP cam, targetVP cam) of
        (Some a, Some t) \<Rightarrow>
          let a' = \<lparr>vp_x = vp_x a + (vp_x t - vp_x a) * LERP_SPEED,
                    vp_y = vp_y a + (vp_y t - vp_y a) * LERP_SPEED,
                    vp_width = vp_width a + (vp_width t - vp_width a) * LERP_SPEED,
                    vp_height = vp_height a + (vp_height t - vp_height a) * LERP_SPEED\<rparr>;
              delta = \<bar>vp_x t - vp_x a'\<bar> + \<bar>vp_y t - vp_y a'\<bar>
                      + \<bar>vp_width t - vp_width a'\<bar> + \<bar>vp_height t - vp_height a'\<bar>
          in (cam\<lparr>animatedVP := Some a'\<rparr>, delta > 0.5)
      | _ \<Rightarrow> (cam, False))"

text \<open>The camera after \<open>n\<close> ticks.\<close>

fun ticks :: "nat \<Rightarrow> camera \<Rightarrow> camera" where
  "ticks 0 cam = cam"
| "ticks (Suc n) cam = ticks n (fst (animateViewBox cam))"

text \<open>The animation as the frame scheduler runs it: a tick per frame for as long as the
  previous tick asked for one. After \<open>n\<close> frames the result is the camera and whether a
  further frame is scheduled.\<close>

fun animationFrames :: "nat \<Rightarrow> camera \<Rightarrow> camera \<times> bool" where
  "animationFrames 0 cam = (cam, True)"
| "animationFrames (Suc n) cam =
     (case animateViewBox cam of
        (cam', again) \<Rightarrow> if again then animationFrames n cam' else (cam', False))"

section \<open>Sample scenes\<close>

text \<open>An element with the given type, id, position and size, and no other field.\<close>

definition mk_element ::
  "string \<Rightarrow> string option \<Rightarrow> real \<Rightarrow> real \<Rightarrow> real option \<Rightarrow> real option \<Rightarrow> element" where
  "mk_element t i px py w h =
     \<lparr>el_type = t, el_id = i, el_ids = None, el_containerId = None, el_x = px, el_y = py,
      el_width = w, el_height = h, el_points = None, el_startBinding = None,
      el_endBinding = None, el_boundElements = None, el_startArrowhead = None,
      el_endArrowhead = None, el_groupIds = None, el_roughness = None, el_opacity = None\<rparr>"

definition rectA :: element where
  "rectA = mk_element ''rectangle'' (Some ''A'') 0 0 (Some 100) (Some 50)"

definition rectB :: element where
  "rectB = mk_element ''ellipse'' (Some ''B'') 300 0 (Some 100) (Some 50)"

definition rectC :: element where
  "rectC = mk_element ''diamond'' (Some ''C'') 0 200 (Some 100) (Some 50)"

definition restoreK :: element where
  "restoreK = mk_element ''restoreCheckpoint'' (Some ''K'') 0 0 None None"

definition restoreK2 :: element where
  "restoreK2 = mk_element ''restoreCheckpoint'' (Some ''K2'') 0 0 None None"

definition cameraE :: element where
  "cameraE = mk_element ''cameraUpdate'' None 0 0 (Some 400) (Some 300)"

text \<open>A decoder that knows one payload: the text \<open>txt\<close> decodes to \<open>els\<close>, any other
  text is rejected.\<close>

definition parses_to :: "string \<Rightarrow> element list \<Rightarrow> string \<Rightarrow> element list option" where
  "parses_to txt els s = (if s = txt then Some els else None)"

definition storeK :: store where
  "storeK = Map.empty(''K'' \<mapsto> \<lparr>cp_elements = [rectA, rectB], cp_plan = None\<rparr>)"












definition cam0 :: camera where
  "cam0 = \<lparr>animatedVP = Some \<lparr>vp_x = 0, vp_y = 0, vp_width = 400, vp_height = 300\<rparr>,
           targetVP = Some \<lparr>vp_x = 100, vp_y = 0, vp_width = 400, vp_height = 300\<rparr>\<rparr>"

text \<open>The camera that started as \<open>cam0\<close>, with the horizontal distance to the target
  reduced \<open>n\<close> times by the factor 97/100.\<close>

definition camAt :: "nat \<Rightarrow> camera" where
  "camAt n = \<lparr>animatedVP = Some \<lparr>vp_x = 100 - 100 * (97 / 100) ^ n, vp_y = 0,
                                  vp_width = 400, vp_height = 300\<rparr>,
              targetVP = Some \<lparr>vp_x = 100, vp_y = 0, vp_width = 400, vp_height = 300\<rparr>\<rparr>"

section \<open>Verified properties\<close>

lemma lastIndexOf_split:
  assumes "c \<notin> set t"
  shows "lastIndexOf (p @ c # t) c = int (length p)"
proof -
  have "takeWhile (\<lambda>x. x \<noteq> c) (rev t @ c # rev p) = rev t"
    using assms by (auto simp: takeWhile_tail)
  then show ?thesis
    by (simp add: lastIndexOf_def)
qed


subsection \<open>Partial-JSON recovery\<close>

lemma excludeIncompleteLastItem_butlast: "excludeIncompleteLastItem arr = butlast arr"
  by (cases arr rule: rev_cases) (auto simp: excludeIncompleteLastItem_def)

text \<open>
  Claim C2, as amended. The recoverer returns the empty array when the input, with its
  surrounding white space trimmed, does not start with an opening bracket; otherwise it
  returns the direct parse when the whole input parses; otherwise it cuts the input after
  the last closing brace anywhere in it (the empty array when there is none), appends a
  closing bracket and returns the parse of that text, or the empty array when that fails.
  So whenever the text up to the last closing brace, closed by a bracket, is a valid array,
  exactly that array is returned.
\<close>

theorem parsePartialElements_recovery:
  "(\<not> startsWith (trim s) ''['' \<longrightarrow> parsePartialElements P (Some s) = [])
   \<and> (startsWith (trim s) ''['' \<longrightarrow> P s = Some v \<longrightarrow> parsePartialElements P (Some s) = v)
   \<and> (startsWith (trim s) ''['' \<longrightarrow> P s = None \<longrightarrow> CHR ''}'' \<notin> set s \<longrightarrow>
        parsePartialElements P (Some s) = [])
   \<and> (startsWith (trim s) ''['' \<longrightarrow> P s = None \<longrightarrow> s = p @ CHR ''}'' # t \<longrightarrow> CHR ''}'' \<notin> set t \<longrightarrow>
        parsePartialElements P (Some s) = (case P (p @ ''}]'') of Some w \<Rightarrow> w | None \<Rightarrow> []))"
proof (intro conjI impI)
  assume "\<not> startsWith (trim s) ''[''"
  then show "parsePartialElements P (Some s) = []"
    by (simp add: parsePartialElements_def)
next
  assume "startsWith (trim s) ''[''" "P s = Some v"
  then show "parsePartialElements P (Some s) = v"
    by (simp add: parsePartialElements_def)
next
  assume "startsWith (trim s) ''[''" "P s = None" "CHR ''}'' \<notin> set s"
  then show "parsePartialElements P (Some s) = []"
    by (simp add: parsePartialElements_def lastIndexOf_def)
next
  assume a: "startsWith (trim s) ''[''" "P s = None" and s: "s = p @ CHR ''}'' # t"
    and t: "CHR ''}'' \<notin> set t"
  have l: "lastIndexOf s (CHR ''}'') = int (length p)"
    unfolding s using t by (rule lastIndexOf_split)
  have "substring s 0 (int (length p) + 1) = p @ ''}''"
    by (simp add: substring_def s nat_add_distrib)
  with a l show "parsePartialElements P (Some s) = (case P (p @ ''}]'') of Some w \<Rightarrow> w | None \<Rightarrow> [])"
    by (simp add: parsePartialElements_def Let_def)
qed

text \<open>The four cases at concrete inputs: \<^verbatim>\<open>{}\<close> is not an array; \<^verbatim>\<open> [{}]\<close> parses as it
  is; \<^verbatim>\<open>[1,\<close> has no closing brace; \<^verbatim>\<open>[{},{\<close> is cut back to \<^verbatim>\<open>[{}\<close> and closed.\<close>

theorem parsePartialElements_recovery_witness:
  "\<not> startsWith (trim ''{}'') ''[''
   \<and> parsePartialElements JSON_parse_array (Some ''{}'') = []
   \<and> startsWith (trim '' [{}]'') ''['' \<and> JSON_parse_array '' [{}]'' = Some [JObj []]
   \<and> parsePartialElements JSON_parse_array (Some '' [{}]'') = [JObj []]
   \<and> startsWith (trim ''[1,'') ''['' \<and> JSON_parse_array ''[1,'' = None \<and> CHR ''}'' \<notin> set ''[1,''
   \<and> parsePartialElements JSON_parse_array (Some ''[1,'') = []
   \<and> startsWith (trim ''[{},{'') ''['' \<and> JSON_parse_array ''[{},{'' = None
   \<and> ''[{},{'' = ''[{'' @ CHR ''}'' # '',{'' \<and> CHR ''}'' \<notin> set '',{''
   \<and> parsePartialElements JSON_parse_array (Some ''[{},{'') = [JObj []]"
proof -
  have h1: "\<not> startsWith (trim ''{}'') ''[''" by code_simp
  have h2: "startsWith (trim '' [{}]'') ''[''" "JSON_parse_array '' [{}]'' = Some [JObj []]"
    by code_simp+
  have h3: "startsWith (trim ''[1,'') ''[''" "JSON_parse_array ''[1,'' = None"
    "CHR ''}'' \<notin> set ''[1,''"
    by code_simp+
  have h4: "startsWith (trim ''[{},{'') ''[''" "JSON_parse_array ''[{},{'' = None"
    "''[{},{'' = ''[{'' @ CHR ''}'' # '',{''" "CHR ''}'' \<notin> set '',{''"
    by code_simp+
  have p4: "JSON_parse_array (''[{'' @ ''}]'') = Some [JObj []]" by code_simp
  have c1: "parsePartialElements JSON_parse_array (Some ''{}'') = []"
    using parsePartialElements_recovery [where P = JSON_parse_array, THEN conjunct1, rule_format, OF h1] .
  have c2: "parsePartialElements JSON_parse_array (Some '' [{}]'') = [JObj []]"
    using parsePartialElements_recovery
      [where P = JSON_parse_array, THEN conjunct2, THEN conjunct1, rule_format, OF h2(1) h2(2)] .
  have c3: "parsePartialElements JSON_parse_array (Some ''[1,'') = []"
    using parsePartialElements_recovery
      [where P = JSON_parse_array, THEN conjunct2, THEN conjunct2, THEN conjunct1, rule_format, OF h3(1) h3(2) h3(3)] .
  have c4: "parsePartialElements JSON_parse_array (Some ''[{},{'') = [JObj []]"
    using parsePartialElements_recovery
      [where P = JSON_parse_array, THEN conjunct2, THEN conjunct2, THEN conjunct2, rule_format, OF h4(1) h4(2) h4(3) h4(4)]
    by (simp only: p4 option.case)
  show ?thesis
    by (intro conjI h1 h2 h3 h4 c1 c2 c3 c4)
qed

text \<open>Claim C2 as stated fails twice. An input with leading white space does not start
  with a bracket, yet is parsed. And the input \<^verbatim>\<open>[{},{"b":{},\<close>, cut inside its second
  element, is truncated after the brace of the nested object, so that the re-parse fails and
  the first, complete element is lost as well.\<close>

theorem parsePartialElements_counterexample:
  "\<not> startsWith '' [{}]'' ''[''
   \<and> parsePartialElements JSON_parse_array (Some '' [{}]'') = [JObj []]
   \<and> parsePartialElements JSON_parse_array
        (Some (''[{},{'' @ [CHR 0x22] @ ''b'' @ [CHR 0x22] @ '':{},'')) = []"
  by code_simp

subsection \<open>Streaming frames\<close>

text \<open>
  Claim C5, as amended. On a streaming (non-final) frame the last element of the recovered
  array is dropped whatever the length of the array: a recovered array of one element
  becomes empty. The final payload is handed on as recovered.
\<close>

theorem frameElements_drop:
  "frameElements P False s = butlast (parsePartialElements P (Some s))
   \<and> frameElements P True s = parsePartialElements P (Some s)"
  by (simp add: frameElements_def excludeIncompleteLastItem_butlast)

theorem frameElements_drop_witness:
  "frameElements JSON_parse_array False ''[{},{},{'' = [JObj []]
   \<and> frameElements JSON_parse_array True ''[{},{},{'' = [JObj [], JObj []]"
proof -
  have "parsePartialElements JSON_parse_array (Some ''[{},{},{'') = [JObj [], JObj []]"
    by code_simp
  with frameElements_drop [of JSON_parse_array "''[{},{},{''"] show ?thesis by simp
qed

text \<open>Claim C5 as stated: with fewer than two recovered elements nothing further is
  dropped. A single recovered element is dropped.\<close>

theorem frameElements_counterexample:
  "parsePartialElements JSON_parse_array (Some ''[{}]'') = [JObj []]
   \<and> frameElements JSON_parse_array False ''[{}]'' = []"
  by code_simp

subsection \<open>Pseudo-element extraction\<close>

lemma foldl_extractStep_restoreId:
  "restoreId (foldl extractStep acc els) =
     (case filter (\<lambda>el. el_type el = ''restoreCheckpoint'') els of
        [] \<Rightarrow> restoreId acc | rs \<Rightarrow> el_id (last rs))"
  by (induction els arbitrary: acc) (auto simp: extractStep_def split: list.splits)

lemma extract_restoreId_last:
  "restoreId (extractViewportAndElements els) =
     (case filter (\<lambda>el. el_type el = ''restoreCheckpoint'') els of
        [] \<Rightarrow> None | rs \<Rightarrow> el_id (last rs))"
  by (simp add: extractViewportAndElements_def Let_def foldl_extractStep_restoreId
      split: list.splits)

text \<open>
  Claim C6: of several \<^verbatim>\<open>restoreCheckpoint\<close> entries the first one names the checkpoint.
  The extractor of the view keeps the id of the last entry, while the lookup of the
  \<^verbatim>\<open>create_view\<close> handler (\<^verbatim>\<open>parsed.find\<close>) takes the first: on the entries K, K2 the
  view restores K2 and the server resolves against K.
\<close>

theorem extract_restoreId_two:
  "restoreId (extractViewportAndElements [restoreK, restoreK2]) = Some ''K2''
   \<and> map_option el_id (find (\<lambda>el. el_type el = ''restoreCheckpoint'') [restoreK, restoreK2])
       = Some (Some ''K'')"
  by (simp add: extract_restoreId_last restoreK_def restoreK2_def mk_element_def)

subsection \<open>The create\_view tool\<close>

lemma in_serverDeleteIds_aux:
  "i \<in> foldl (\<lambda>acc el. if el_type el = ''delete'' then acc \<union> deleteTargets el else acc) A parsed
     \<longleftrightarrow> i \<in> A \<or> (\<exists>d\<in>set parsed. el_type d = ''delete'' \<and> i \<in> deleteTargets d)"
  by (induction parsed arbitrary: A) auto

lemma in_serverDeleteIds:
  "i \<in> serverDeleteIds parsed \<longleftrightarrow> (\<exists>d\<in>set parsed. el_type d = ''delete'' \<and> i \<in> deleteTargets d)"
  by (simp add: serverDeleteIds_def in_serverDeleteIds_aux)



text \<open>
  Claim C1, as amended. When the first \<^verbatim>\<open>restoreCheckpoint\<close> entry names a stored
  checkpoint, the scene saved under the new id is the base scene without the elements whose
  id or \<^verbatim>\<open>containerId\<close> is named by a \<^verbatim>\<open>delete\<close> entry, followed by every new entry
  that is neither a \<^verbatim>\<open>restoreCheckpoint\<close> nor a \<^verbatim>\<open>delete\<close> entry (camera entries are
  kept), both in their original order.
\<close>

theorem create_view_resolves:
  assumes "length elements \<le> MAX_INPUT_BYTES"
    and "JSON_parse elements = Some parsed"
    and "find (\<lambda>el. el_type el = ''restoreCheckpoint'') parsed = Some r"
    and "el_id r = Some rid" and "rid \<noteq> []"
    and "store_load st rid = Some base"
  shows "map_option cp_elements (snd (create_view JSON_parse checkpointId st elements plan) checkpointId)
           = Some (filter (\<lambda>el. \<not> (\<exists>d\<in>set parsed. el_type d = ''delete'' \<and>
                               (el_id el \<in> deleteTargets d \<or> el_containerId el \<in> deleteTargets d)))
                     (cp_elements base)
                   @ filter (\<lambda>el. el_type el \<noteq> ''restoreCheckpoint'' \<and> el_type el \<noteq> ''delete'') parsed)"
proof -
  have "filter (\<lambda>el. \<not> el_id el \<in> serverDeleteIds parsed \<and> \<not> el_containerId el \<in> serverDeleteIds parsed)
          (cp_elements base)
        = filter (\<lambda>el. \<not> (\<exists>d\<in>set parsed. el_type d = ''delete'' \<and>
                               (el_id el \<in> deleteTargets d \<or> el_containerId el \<in> deleteTargets d)))
          (cp_elements base)"
    by (rule filter_cong) (auto simp: in_serverDeleteIds)
  with assms show ?thesis
    by (simp add: create_view_def Let_def store_save_def)
qed

text \<open>The example of the spec: the stored scene A, B and the new element C, without
  deletions, resolve to A, B, C.\<close>

theorem create_view_resolves_witness:
  "length ''[K,C]'' \<le> MAX_INPUT_BYTES
   \<and> parses_to ''[K,C]'' [restoreK, rectC] ''[K,C]'' = Some [restoreK, rectC]
   \<and> find (\<lambda>el. el_type el = ''restoreCheckpoint'') [restoreK, rectC] = Some restoreK
   \<and> el_id restoreK = Some ''K'' \<and> ''K'' \<noteq> []
   \<and> store_load storeK ''K'' = Some \<lparr>cp_elements = [rectA, rectB], cp_plan = None\<rparr>
   \<and> map_option cp_elements
        (snd (create_view (parses_to ''[K,C]'' [restoreK, rectC]) ''N'' storeK ''[K,C]'' None) ''N'')
       = Some [rectA, rectB, rectC]"
proof -
  have h: "length ''[K,C]'' \<le> MAX_INPUT_BYTES"
    "parses_to ''[K,C]'' [restoreK, rectC] ''[K,C]'' = Some [restoreK, rectC]"
    "find (\<lambda>el. el_type el = ''restoreCheckpoint'') [restoreK, rectC] = Some restoreK"
    "el_id restoreK = Some ''K''" "''K'' \<noteq> []"
    "store_load storeK ''K'' = Some \<lparr>cp_elements = [rectA, rectB], cp_plan = None\<rparr>"
    by (simp_all add: MAX_INPUT_BYTES_def parses_to_def restoreK_def rectC_def mk_element_def
        store_load_def storeK_def)
  have "map_option cp_elements
        (snd (create_view (parses_to ''[K,C]'' [restoreK, rectC]) ''N'' storeK ''[K,C]'' None) ''N'')
       = Some [rectA, rectB, rectC]"
    using create_view_resolves
      [where JSON_parse = "parses_to ''[K,C]'' [restoreK, rectC]" and elements = "''[K,C]''"
         and checkpointId = "''N''" and plan = None, OF h]
    by (simp add: restoreK_def rectC_def mk_element_def)
  with h show ?thesis by (intro conjI)
qed

text \<open>Claim C1 as stated: the base is followed by the new drawable elements. A camera
  entry among the new entries is no drawable element, and is part of the resolved scene.\<close>

theorem create_view_counterexample:
  "el_type cameraE \<in> PSEUDO_TYPES
   \<and> map_option cp_elements
        (snd (create_view (parses_to ''[K,cam,C]'' [restoreK, cameraE, rectC]) ''N'' storeK
                ''[K,cam,C]'' None) ''N'')
       = Some [rectA, rectB, cameraE, rectC]"
  by (simp add: create_view_def Let_def parses_to_def MAX_INPUT_BYTES_def store_load_def
      store_save_def storeK_def serverDeleteIds_def restoreK_def cameraE_def rectC_def
      mk_element_def PSEUDO_TYPES_def)



text \<open>
  Claim C10. A \<^verbatim>\<open>create_view\<close> call whose \<^verbatim>\<open>elements\<close> string is longer than
  5 * 1024 * 1024 returns the size error and leaves the store as it was, whatever the
  decoder would make of the text; a string at or below the limit never yields the size
  error.
\<close>

theorem create_view_size_limit:
  "(length elements > 5 * 1024 * 1024 \<longrightarrow>
      create_view JSON_parse checkpointId st elements plan
        = (ToolError (InputTooLarge (5 * 1024 * 1024)), st))
   \<and> (length elements \<le> 5 * 1024 * 1024 \<longrightarrow>
      (\<forall>n. fst (create_view JSON_parse checkpointId st elements plan) \<noteq> ToolError (InputTooLarge n)))"
  by (auto simp: create_view_def Let_def MAX_INPUT_BYTES_def split: option.splits)

theorem create_view_size_limit_witness:
  "length (replicate 5242881 (CHR ''[''))  > 5 * 1024 * 1024
   \<and> create_view (parses_to ''[C]'' [rectC]) ''N'' storeK (replicate 5242881 (CHR ''['')) None
        = (ToolError (InputTooLarge (5 * 1024 * 1024)), storeK)
   \<and> length ''[C]'' \<le> 5 * 1024 * 1024
   \<and> fst (create_view (parses_to ''[C]'' [rectC]) ''N'' storeK ''[C]'' None)
        \<noteq> ToolError (InputTooLarge (5 * 1024 * 1024))"
proof -
  have big: "length (replicate 5242881 (CHR ''['')) > 5 * 1024 * 1024"
    by simp
  have small: "length ''[C]'' \<le> 5 * 1024 * 1024" by simp
  have c1: "create_view (parses_to ''[C]'' [rectC]) ''N'' storeK (replicate 5242881 (CHR ''['')) None
        = (ToolError (InputTooLarge (5 * 1024 * 1024)), storeK)"
    using create_view_size_limit [THEN conjunct1, rule_format, OF big] .
  have c2: "fst (create_view (parses_to ''[C]'' [rectC]) ''N'' storeK ''[C]'' None)
        \<noteq> ToolError (InputTooLarge (5 * 1024 * 1024))"
    using create_view_size_limit [THEN conjunct2, rule_format, OF small] .
  from big small c1 c2 show ?thesis by (intro conjI)
qed


subsection \<open>Camera animation\<close>

lemma tick_raw:
  "animateViewBox (camAt n) = (camAt (Suc n), 100 * (97 / 100 :: real) ^ Suc n > 0.5)"
  by (simp add: animateViewBox_def camAt_def LERP_SPEED_def Let_def algebra_simps)

lemma pow173: "100 * (97 / 100 :: real) ^ 173 > 0.5"
  by (simp add: power_divide)

lemma pow174: "\<not> 100 * (97 / 100 :: real) ^ 174 > 0.5"
  by (simp add: power_divide)

lemma again_iff: "100 * (97 / 100 :: real) ^ Suc n > 0.5 \<longleftrightarrow> n < 173"
proof
  assume a: "100 * (97 / 100 :: real) ^ Suc n > 0.5"
  show "n < 173"
  proof (rule ccontr)
    assume "\<not> n < 173"
    then have "174 \<le> Suc n" by simp
    then have "(97 / 100 :: real) ^ Suc n \<le> (97 / 100) ^ 174"
      by (intro power_decreasing) simp_all
    with a pow174 show False by simp
  qed
next
  assume "n < 173"
  then have "Suc n \<le> 173" by simp
  then have "(97 / 100 :: real) ^ 173 \<le> (97 / 100) ^ Suc n"
    by (intro power_decreasing) simp_all
  with pow173 show "100 * (97 / 100 :: real) ^ Suc n > 0.5" by simp
qed

lemma tick_camAt: "animateViewBox (camAt n) = (camAt (Suc n), n < 173)"
  by (simp only: tick_raw again_iff)

lemma ticks_camAt: "ticks n (camAt k) = camAt (k + n)"
  by (induction n arbitrary: k) (simp_all add: tick_camAt)

lemma cam0_camAt: "cam0 = camAt 0"
  by (simp add: cam0_def camAt_def)

lemma frames_run: "k + n \<le> 173 \<Longrightarrow> animationFrames n (camAt k) = (camAt (k + n), True)"
  by (induction n arbitrary: k) (simp_all add: tick_camAt)

lemma frames_stop:
  "k \<le> 173 \<Longrightarrow> k + n > 173 \<Longrightarrow> animationFrames n (camAt k) = (camAt 174, False)"
proof (induction n arbitrary: k)
  case 0
  then show ?case by simp
next
  case (Suc n)
  show ?case
  proof (cases "k < 173")
    case True
    with Suc.prems Suc.IH [of "Suc k"] show ?thesis
      by (simp add: tick_camAt)
  next
    case False
    with Suc.prems have "k = 173" by simp
    then show ?thesis by (simp add: tick_camAt)
  qed
qed

text \<open>
  Claim C9. A tick moves each of the four fields of the animated viewport by the fraction
  3/100 of its distance to the target. From the viewport (0, 0, 400, 300) with the target
  (100, 0, 400, 300), the horizontal position after \<open>n\<close> ticks is
  \<open>100 - 100 * (97/100) ^ n\<close>: it grows with every tick and stays below 100. The first 173
  ticks ask for a further frame, the 174th, which brings the remaining distance to at most
  0.5, does not: the animation stops there. Numbers are real numbers in this model.
\<close>

theorem camera_animation:
  "(animatedVP cam = Some a \<longrightarrow> targetVP cam = Some t \<longrightarrow>
      animatedVP (fst (animateViewBox cam)) =
        Some \<lparr>vp_x = vp_x a + (vp_x t - vp_x a) * (3 / 100),
              vp_y = vp_y a + (vp_y t - vp_y a) * (3 / 100),
              vp_width = vp_width a + (vp_width t - vp_width a) * (3 / 100),
              vp_height = vp_height a + (vp_height t - vp_height a) * (3 / 100)\<rparr>)
   \<and> animatedVP (ticks n cam0) =
        Some \<lparr>vp_x = 100 - 100 * (97 / 100) ^ n, vp_y = 0, vp_width = 400, vp_height = 300\<rparr>
   \<and> (\<exists>x x'. map_option vp_x (animatedVP (ticks n cam0)) = Some x
          \<and> map_option vp_x (animatedVP (ticks (Suc n) cam0)) = Some x'
          \<and> x < x' \<and> x' < 100)
   \<and> (snd (animateViewBox (ticks n cam0)) \<longleftrightarrow> n < 173)
   \<and> animationFrames n cam0 = (ticks (min n 174) cam0, n < 174)"
proof (intro conjI impI)
  assume "animatedVP cam = Some a" "targetVP cam = Some t"
  then show "animatedVP (fst (animateViewBox cam)) =
        Some \<lparr>vp_x = vp_x a + (vp_x t - vp_x a) * (3 / 100),
              vp_y = vp_y a + (vp_y t - vp_y a) * (3 / 100),
              vp_width = vp_width a + (vp_width t - vp_width a) * (3 / 100),
              vp_height = vp_height a + (vp_height t - vp_height a) * (3 / 100)\<rparr>"
    by (simp add: animateViewBox_def LERP_SPEED_def Let_def)
next
  show "animatedVP (ticks n cam0) =
        Some \<lparr>vp_x = 100 - 100 * (97 / 100) ^ n, vp_y = 0, vp_width = 400, vp_height = 300\<rparr>"
    by (simp add: cam0_camAt ticks_camAt) (simp add: camAt_def)
next
  have "(0 :: real) < (97 / 100) ^ n" by simp
  then have "(97 / 100 :: real) ^ Suc n < (97 / 100) ^ n"
    by simp
  moreover have "(0 :: real) < (97 / 100) ^ Suc n" by simp
  ultimately show "\<exists>x x'. map_option vp_x (animatedVP (ticks n cam0)) = Some x
          \<and> map_option vp_x (animatedVP (ticks (Suc n) cam0)) = Some x'
          \<and> x < x' \<and> x' < 100"
    unfolding cam0_camAt ticks_camAt by (simp add: camAt_def)
next
  show "snd (animateViewBox (ticks n cam0)) \<longleftrightarrow> n < 173"
    by (simp add: cam0_camAt ticks_camAt tick_camAt)
next
  show "animationFrames n cam0 = (ticks (min n 174) cam0, n < 174)"
  proof (cases "n < 174")
    case True
    then have "animationFrames n (camAt 0) = (camAt (0 + n), True)"
      by (intro frames_run) simp
    with True show ?thesis
      by (simp add: cam0_camAt ticks_camAt min_def)
  next
    case False
    then have "animationFrames n (camAt 0) = (camAt 174, False)"
      by (intro frames_stop) simp_all
    with False show ?thesis
      by (simp add: cam0_camAt ticks_camAt min_def)
  qed
qed

theorem camera_animation_witness:
  "animatedVP cam0 = Some \<lparr>vp_x = 0, vp_y = 0, vp_width = 400, vp_height = 300\<rparr>
   \<and> targetVP cam0 = Some \<lparr>vp_x = 100, vp_y = 0, vp_width = 400, vp_height = 300\<rparr>
   \<and> animatedVP (fst (animateViewBox cam0))
        = Some \<lparr>vp_x = 3, vp_y = 0, vp_width = 400, vp_height = 300\<rparr>
   \<and> animatedVP (ticks 1 cam0)
        = Some \<lparr>vp_x = 3, vp_y = 0, vp_width = 400, vp_height = 300\<rparr>
   \<and> snd (animationFrames 173 cam0) \<and> \<not> snd (animationFrames 174 cam0)"
proof -
  have h: "animatedVP cam0 = Some \<lparr>vp_x = 0, vp_y = 0, vp_width = 400, vp_height = 300\<rparr>"
    "targetVP cam0 = Some \<lparr>vp_x = 100, vp_y = 0, vp_width = 400, vp_height = 300\<rparr>"
    by (simp_all add: cam0_def)
  have c1: "animatedVP (fst (animateViewBox cam0))
        = Some \<lparr>vp_x = 3, vp_y = 0, vp_width = 400, vp_height = 300\<rparr>"
    using camera_animation [THEN conjunct1, rule_format, OF h] by simp
  have c2: "animatedVP (ticks 1 cam0)
        = Some \<lparr>vp_x = 3, vp_y = 0, vp_width = 400, vp_height = 300\<rparr>"
    using camera_animation [THEN conjunct2, THEN conjunct1, of 1] by simp
  have c3: "snd (animationFrames 173 cam0)" "\<not> snd (animationFrames 174 cam0)"
    using camera_animation [THEN conjunct2, THEN conjunct2, THEN conjunct2, THEN conjunct2, of 173]
      camera_animation [THEN conjunct2, THEN conjunct2, THEN conjunct2, THEN conjunct2, of 174]
    by simp_all
  from h c1 c2 c3 show ?thesis by (intro conjI)
qed


subsection \<open>Arrow binding\<close>










lemma mergeBound_bindings [simp]:
  "el_startBinding (mergeBound m e) = el_startBinding e"
  "el_endBinding (mergeBound m e) = el_endBinding e"
  by (simp_all add: mergeBound_def split: option.splits)





lemma in_bindable:
  "b \<in> set (filter (\<lambda>el. el_type el \<in> BINDABLE_SHAPES) elements)
     \<longleftrightarrow> b \<in> set elements \<and> el_type b \<in> BINDABLE_SHAPES"
  by auto










subsection \<open>Draw order\<close>













subsection \<open>Running the pipeline twice\<close>






































lemma list_all2_set1D:
  "list_all2 P xs ys \<Longrightarrow> x \<in> set xs \<Longrightarrow> \<exists>y\<in>set ys. P x y"
  by (induction rule: list_all2_induct) auto









































end
